theory Spec2Isabelle
  imports Complex_Main "HOL-Library.Word" "HOL-Library.Sublist" "HOL-Library.Multiset"
begin

section \<open>JavaScript strings\<close>

text \<open>
  A JavaScript string is a sequence of UTF-16 code units. String literals of the source
  are ASCII and written through \<open>str\<close>.
\<close>

type_synonym jsstring = "16 word list"

definition str :: "string \<Rightarrow> jsstring" where
  "str s = map (\<lambda>c. of_nat (of_char c)) s"

definition LT :: "16 word" where "LT = 0x3C"
definition GT :: "16 word" where "GT = 0x3E"
definition QUOTE :: "16 word" where "QUOTE = 0x22"
definition NL :: "16 word" where "NL = 0x0A"
definition SP :: "16 word" where "SP = 0x20"

text \<open>
  The code units that \<open>String.prototype.trim\<close> removes and that \<open>\s\<close> matches in a
  regular expression: ECMAScript's WhiteSpace and LineTerminator.
\<close>

definition isWhiteSpace :: "16 word \<Rightarrow> bool" where
  "isWhiteSpace c =
     (c = 0x09 \<or> c = 0x0A \<or> c = 0x0B \<or> c = 0x0C \<or> c = 0x0D \<or> c = 0x20 \<or> c = 0xA0
      \<or> c = 0x1680 \<or> (0x2000 \<le> c \<and> c \<le> 0x200A) \<or> c = 0x2028 \<or> c = 0x2029
      \<or> c = 0x202F \<or> c = 0x205F \<or> c = 0x3000 \<or> c = 0xFEFF)"

definition ltrim :: "jsstring \<Rightarrow> jsstring" where
  "ltrim s = dropWhile isWhiteSpace s"

definition rtrim :: "jsstring \<Rightarrow> jsstring" where
  "rtrim s = rev (dropWhile isWhiteSpace (rev s))"

definition trim :: "jsstring \<Rightarrow> jsstring" where
  "trim s = rtrim (ltrim s)"

text \<open>
  \<open>split_first p s\<close> looks for the leftmost occurrence of the literal \<open>p\<close> in \<open>s\<close>,
  trying every start position from the left as \<open>indexOf\<close> and a regular expression
  search do, and returns the text before and after it.
\<close>

fun split_first :: "'a list \<Rightarrow> 'a list \<Rightarrow> ('a list \<times> 'a list) option" where
  "split_first p [] = (if p = [] then Some ([], []) else None)"
| "split_first p (c # cs) =
     (if prefix p (c # cs) then Some ([], drop (length p) (c # cs))
      else map_option (\<lambda>(a, b). (c # a, b)) (split_first p cs))"

text \<open>\<open>s.includes(p)\<close>\<close>

definition str_includes :: "'a list \<Rightarrow> 'a list \<Rightarrow> bool" where
  "str_includes s p = (split_first p s \<noteq> None)"

text \<open>\<open>s.replace(p, r)\<close> for a string pattern \<open>p\<close>: only the first occurrence is replaced.\<close>

definition replace_first :: "'a list \<Rightarrow> 'a list \<Rightarrow> 'a list \<Rightarrow> 'a list" where
  "replace_first s p r = (case split_first p s of None \<Rightarrow> s | Some (a, b) \<Rightarrow> a @ r @ b)"

section \<open>The thinking delimiters (Chat.tsx)\<close>

definition OPEN :: jsstring where "OPEN = str ''<think>''"
definition CLOSE :: jsstring where "CLOSE = str ''</think>''"

text \<open>
  \<open>content.match(/<think>([^]*?)<\/think>/)\<close>. The expression is not global, so the
  result is the first match: the engine tries the start positions from the left; at a
  position where \<open><think>\<close> matches, the lazy \<open>[^]*?\<close> (any code unit, newlines
  included) grows one unit at a time until \<open></think>\<close> follows; when it never does, the
  engine goes on to the next start position. A match is returned as the text before it,
  the captured group 1 and the text after it.
\<close>

fun thinkMatch :: "jsstring \<Rightarrow> (jsstring \<times> jsstring \<times> jsstring) option" where
  "thinkMatch [] = None"
| "thinkMatch (c # cs) =
     (case (if prefix OPEN (c # cs) then split_first CLOSE (drop (length OPEN) (c # cs)) else None) of
        Some (m, r) \<Rightarrow> Some ([], m, r)
      | None \<Rightarrow> map_option (\<lambda>(p, m, r). (c # p, m, r)) (thinkMatch cs))"

record ParsedMessage =
  parsed_thinking :: "jsstring option"
  parsed_content :: jsstring

text \<open>\<open>parseMessage\<close>: \<open>content.replace(thinkRegex, '')\<close> removes the matched region.\<close>

definition parseMessage :: "jsstring \<Rightarrow> ParsedMessage" where
  "parseMessage content' =
     (case thinkMatch content' of
        Some (pre, m, post) \<Rightarrow>
          \<lparr>parsed_thinking = Some (trim m), parsed_content = trim (pre @ post)\<rparr>
      | None \<Rightarrow> \<lparr>parsed_thinking = None, parsed_content = trim content'\<rparr>)"

section \<open>Search results and the streaming state\<close>

record SearchResult =
  title :: jsstring
  url :: jsstring
  result_content :: jsstring
  score :: real
  published_date :: "jsstring option"

record StreamingState =
  thinking :: jsstring
  content :: jsstring
  isThinking :: bool
  sources :: "SearchResult list"

text \<open>The role of a chat message; the code tells \<open>user\<close> and \<open>assistant\<close> from the rest.\<close>

datatype Role = User | Assistant | OtherRole

datatype Message = Message (msg_role: Role) (msg_content: jsstring)

text \<open>
  The body of the streaming effect for the accumulated text of the last assistant
  message: the four branches of the source, in its order. The third branch reads
  \<open>streamingState.isThinking\<close> of the render that scheduled the effect, which is the
  state the updaters receive as \<open>prev\<close>. The \<open>thinkingStartTime\<close> reference, a
  clock reading for the display, is left out.
\<close>

definition streaming_update :: "jsstring \<Rightarrow> StreamingState \<Rightarrow> StreamingState" where
  "streaming_update content' prev =
     (case thinkMatch content' of
        Some (pre, m, post) \<Rightarrow>
          prev\<lparr>thinking := trim m, content := trim (pre @ post), isThinking := False\<rparr>
      | None \<Rightarrow>
          if str_includes content' OPEN
          then prev\<lparr>thinking := trim (replace_first content' OPEN []), content := [],
                     isThinking := True\<rparr>
          else if isThinking prev then prev\<lparr>thinking := trim content'\<rparr>
          else prev\<lparr>content := trim content'\<rparr>)"

text \<open>
  The effect runs when \<open>messages\<close> changes and returns early when there is no message
  or the last one is not the assistant's.
\<close>

definition streaming_effect :: "Message list \<Rightarrow> StreamingState \<Rightarrow> StreamingState" where
  "streaming_effect messages st =
     (if messages = [] then st
      else if msg_role (last messages) \<noteq> Assistant then st
      else streaming_update (msg_content (last messages)) st)"

text \<open>The updater of \<open>handleSubmit\<close> that starts a turn; a blank input returns before it.\<close>

definition reset_streaming :: "StreamingState \<Rightarrow> StreamingState" where
  "reset_streaming prev = prev\<lparr>thinking := [], content := [], isThinking := True\<rparr>"

definition handleSubmit_start :: "jsstring \<Rightarrow> StreamingState \<Rightarrow> StreamingState" where
  "handleSubmit_start input st = (if trim input = [] then st else reset_streaming st)"

section \<open>Query reformulation (Chat.tsx, handleSubmit)\<close>

text \<open>
  \<open>.replace(/<[^>]*>/g, '')\<close>: at a \<open><\<close> the greedy \<open>[^>]*\<close> runs up to the next
  \<open>>\<close>, which ends the match; with no \<open>>\<close> further on there is no match at this
  position and the \<open><\<close> stays. The search resumes after each removed match.
\<close>

function strip_tags :: "jsstring \<Rightarrow> jsstring" where
  "strip_tags [] = []"
| "strip_tags (c # cs) =
     (if c = LT
      then (case dropWhile (\<lambda>x. x \<noteq> GT) cs of
              [] \<Rightarrow> c # strip_tags cs
            | g # rest \<Rightarrow> strip_tags rest)
      else c # strip_tags cs)"
  by pat_completeness auto
termination
proof (relation "measure length")
  fix c :: "16 word" and cs x21 x22
  assume "dropWhile (\<lambda>x. x \<noteq> GT) cs = x21 # x22"
  then have "length (x21 # x22) \<le> length cs"
    by (metis length_dropWhile_le)
  then show "(x22, c # cs) \<in> measure length" by simp
qed simp_all

definition isQuoteOrSpace :: "16 word \<Rightarrow> bool" where
  "isQuoteOrSpace c = (c = QUOTE \<or> isWhiteSpace c)"

text \<open>
  \<open>.replace(/^["\s]+|["\s]+$/g, '')\<close>. The first alternative can match at the start
  only and takes the longest run there. At every later position only the second
  alternative applies: it matches where all the rest of the string is quotes and
  white space.
\<close>

fun strip_trailing :: "jsstring \<Rightarrow> jsstring" where
  "strip_trailing [] = []"
| "strip_trailing (c # cs) =
     (if list_all isQuoteOrSpace (c # cs) then [] else c # strip_trailing cs)"

definition strip_edges :: "jsstring \<Rightarrow> jsstring" where
  "strip_edges s = strip_trailing (dropWhile isQuoteOrSpace s)"

text \<open>\<open>.replace(/\n/g, ' ')\<close>\<close>

definition newlines_to_spaces :: "jsstring \<Rightarrow> jsstring" where
  "newlines_to_spaces s = map (\<lambda>c. if c = NL then SP else c) s"

definition normalize_query :: "jsstring \<Rightarrow> jsstring" where
  "normalize_query reformulatedQuery =
     trim (newlines_to_spaces (strip_edges (strip_tags reformulatedQuery)))"

text \<open>
  The reformulation request is made for a follow-up only (\<open>messages.length > 1\<close>). Its
  response is either not ok, or ok with the concatenation of the decoded chunks (empty
  when the response has no body reader).
\<close>

datatype reformulationResponse = NotOk | Ok jsstring

definition searchQuery :: "jsstring \<Rightarrow> nat \<Rightarrow> reformulationResponse \<Rightarrow> jsstring" where
  "searchQuery currentInput messages_length response =
     (if messages_length > 1
      then (case response of
              NotOk \<Rightarrow> currentInput
            | Ok reformulatedQuery \<Rightarrow>
                if trim reformulatedQuery \<noteq> [] then normalize_query reformulatedQuery
                else currentInput)
      else currentInput)"

section \<open>The search hook (useSearch)\<close>

text \<open>
  \<open>Array.prototype.sort\<close> with a comparator is the engine's: ECMAScript fixes its
  result for a consistent comparator (ordered by the comparator, stable), not its
  algorithm. It is modelled by insertion from the right, an element going before the
  first one that the comparator does not put strictly before it. Scores come from a
  JSON body, so they are finite numbers, and the sign of \<open>b.score - a.score\<close> in
  floating point is the sign of the difference of the two values.
\<close>

fun insert_cmp :: "('a \<Rightarrow> 'a \<Rightarrow> real) \<Rightarrow> 'a \<Rightarrow> 'a list \<Rightarrow> 'a list" where
  "insert_cmp cmp x [] = [x]"
| "insert_cmp cmp x (y # ys) =
     (if cmp x y \<le> 0 then x # y # ys else y # insert_cmp cmp x ys)"

definition array_sort :: "('a \<Rightarrow> 'a \<Rightarrow> real) \<Rightarrow> 'a list \<Rightarrow> 'a list" where
  "array_sort cmp xs = foldr (insert_cmp cmp) xs []"

text \<open>
  \<open>createResultStream\<close>: the generator yields the sorted results one by one; the list
  is what it yields, in order (the pause between two results is not modelled).
\<close>

definition createResultStream :: "SearchResult list \<Rightarrow> SearchResult list" where
  "createResultStream results' = array_sort (\<lambda>a b. score b - score a) results'"

text \<open>
  A thrown value is an \<open>Error\<close> with its message, or something that is not an
  \<open>Error\<close>.
\<close>

datatype thrown = Error jsstring | NonError

text \<open>
  The value of \<open>data.results || []\<close>. \<open>data\<close> is untyped, so the value is an array
  of results or, for a body of the wrong shape, some truthy value that is not an array
  (a string, a number, an object); the constructor for it carries the message of the
  \<open>TypeError\<close> that \<open>results.sort\<close> raises on it.
\<close>

datatype results_value = ArrayOf "SearchResult list" | NonArray jsstring

text \<open>
  What iterating a generator produces: results, or a throw, which ends the iteration.
  \<open>createResultStream\<close> is declared on arrays. Its body runs when the generator is
  first advanced, neither at the call nor inside the \<open>try\<close> of \<open>performSearch\<close>; on
  a value that is not an array its first step throws.
\<close>

datatype stream_item = Yield SearchResult | Throw thrown

definition result_stream :: "results_value \<Rightarrow> stream_item list" where
  "result_stream v =
     (case v of
        ArrayOf rs \<Rightarrow> map Yield (createResultStream rs)
      | NonArray m \<Rightarrow> [Throw (Error m)])"

record SearchHook =
  isSearching :: bool
  searchResults :: results_value
  searchError :: "jsstring option"

text \<open>
  What \<open>fetch\<close> and \<open>response.json()\<close> can give \<open>performSearch\<close>. A body is
  \<^item> text that is not JSON: \<open>json()\<close> rejects with the parser's message;
  \<^item> the JSON value \<open>null\<close>: reading a property of it throws a \<open>TypeError\<close>, whose
    message the constructor carries;
  \<^item> a JSON number, string, boolean or array, which has neither of the fields read;
  \<^item> a JSON object, of which the code reads \<open>details\<close> and \<open>results\<close>.
  \<open>details\<close> is the string that the search route sends (\<open>error.message\<close> or
  \<open>Unknown error\<close>), \<open>None\<close> when the field is missing or null; a \<open>details\<close> of
  another JSON type is outside this type. \<open>results\<close> is \<open>None\<close> when the field is
  missing, null or another falsy value.
\<close>

datatype body =
    NotJson jsstring
  | JsonNull jsstring
  | JsonOther
  | JsonObject (details: "jsstring option") (results: "results_value option")

datatype fetch_outcome = Rejected thrown | Response bool body

definition request_failed :: jsstring where
  "request_failed = str ''Search request failed''"

definition failed_to_perform :: jsstring where
  "failed_to_perform = str ''Failed to perform search''"

text \<open>
  The \<open>try\<close> block: \<open>Inl\<close> is what it throws. \<open>error.details || '...'\<close> takes
  the second operand when \<open>details\<close> is missing, null or the empty string, and
  \<open>data.results || []\<close> when \<open>results\<close> is missing or null. The published value and
  the value handed to \<open>createResultStream\<close> are the same array, which the generator
  sorts in place once it is iterated; the hook's \<open>searchResults\<close> is recorded here as
  it is when published.
\<close>

definition try_search ::
  "fetch_outcome \<Rightarrow> SearchHook \<Rightarrow> thrown + (SearchHook \<times> stream_item list)" where
  "try_search outcome h =
     (case outcome of
        Rejected t \<Rightarrow> Inl t
      | Response ok b \<Rightarrow>
          if \<not> ok
          then (case b of
                  NotJson m \<Rightarrow> Inl (Error m)
                | JsonNull m \<Rightarrow> Inl (Error m)
                | JsonOther \<Rightarrow> Inl (Error request_failed)
                | JsonObject d r \<Rightarrow>
                    Inl (Error (case d of
                                  None \<Rightarrow> request_failed
                                | Some x \<Rightarrow> if x \<noteq> [] then x else request_failed)))
          else (case b of
                  NotJson m \<Rightarrow> Inl (Error m)
                | JsonNull m \<Rightarrow> Inl (Error m)
                | JsonOther \<Rightarrow> Inr (h\<lparr>searchResults := ArrayOf []\<rparr>, result_stream (ArrayOf []))
                | JsonObject d r \<Rightarrow>
                    (let v = (case r of None \<Rightarrow> ArrayOf [] | Some x \<Rightarrow> x)
                     in Inr (h\<lparr>searchResults := v\<rparr>, result_stream v))))"

definition performSearch ::
  "fetch_outcome \<Rightarrow> SearchHook \<Rightarrow> SearchHook \<times> stream_item list" where
  "performSearch outcome h0 =
     (let h = h0\<lparr>isSearching := True, searchError := None, searchResults := ArrayOf []\<rparr>
      in case try_search outcome h of
           Inr (h', stream) \<Rightarrow> (h'\<lparr>isSearching := False\<rparr>, stream)
         | Inl t \<Rightarrow>
             (h\<lparr>searchError := Some (case t of Error m \<Rightarrow> m | NonError \<Rightarrow> failed_to_perform),
                searchResults := ArrayOf [], isSearching := False\<rparr>,
              result_stream (ArrayOf [])))"

text \<open>
  A search failure, as \<open>performSearch\<close> detects one: the request is rejected, the
  response is not a success, or the body of a success response is not JSON or is
  \<open>null\<close>. A success response with any other JSON body is not one, whatever the shape
  of the body.
\<close>

fun search_failure :: "fetch_outcome \<Rightarrow> bool" where
  "search_failure (Rejected t) = True"
| "search_failure (Response ok (NotJson m)) = True"
| "search_failure (Response ok (JsonNull m)) = True"
| "search_failure (Response ok JsonOther) = (\<not> ok)"
| "search_failure (Response ok (JsonObject d r)) = (\<not> ok)"

text \<open>
  The loop of \<open>handleSubmit\<close> over the search stream: every result is pushed on
  \<open>newSources\<close>, which then becomes the \<open>sources\<close> of the streaming state. A throw
  of the stream leaves the loop with the state reached so far.
\<close>

fun consume_stream ::
  "SearchResult list \<Rightarrow> stream_item list \<Rightarrow> StreamingState \<Rightarrow> StreamingState \<times> thrown option"
  where
  "consume_stream newSources [] st = (st, None)"
| "consume_stream newSources (Yield r # rest) st =
     consume_stream (newSources @ [r]) rest (st\<lparr>sources := newSources @ [r]\<rparr>)"
| "consume_stream newSources (Throw t # rest) st = (st, Some t)"

text \<open>The updater in the \<open>catch\<close> of \<open>handleSubmit\<close>.\<close>

definition submit_failed :: "StreamingState \<Rightarrow> StreamingState" where
  "submit_failed prev =
     prev\<lparr>thinking := [], content := str ''Sorry, there was an error processing your request.'',
          isThinking := False\<rparr>"

text \<open>
  The search part of \<open>handleSubmit\<close>: \<open>performSearch\<close>, then the loop, and the
  \<open>catch\<close> when the loop throws.
\<close>

definition search_step ::
  "fetch_outcome \<Rightarrow> SearchHook \<times> StreamingState \<Rightarrow> SearchHook \<times> StreamingState" where
  "search_step outcome hs =
     (case performSearch outcome (fst hs) of
        (h', stream) \<Rightarrow>
          (h', case consume_stream [] stream (snd hs) of
                 (st', None) \<Rightarrow> st'
               | (st', Some t) \<Rightarrow> submit_failed st'))"

section \<open>Example values\<close>

definition fresh_state :: StreamingState where
  "fresh_state = \<lparr>thinking = [], content = [], isThinking = True, sources = []\<rparr>"

definition idle_hook :: SearchHook where
  "idle_hook = \<lparr>isSearching = False, searchResults = ArrayOf [], searchError = None\<rparr>"

definition result_of :: "string \<Rightarrow> real \<Rightarrow> SearchResult" where
  "result_of u s = \<lparr>title = [], url = str u, result_content = [], score = s,
                     published_date = None\<rparr>"

section \<open>Facts about the string operations\<close>

lemmas char_defs = LT_def GT_def NL_def QUOTE_def SP_def
lemmas trim_defs = trim_def ltrim_def rtrim_def isWhiteSpace_def

lemma createResultStream_Nil: "createResultStream [] = []"
  by (simp add: createResultStream_def array_sort_def)

lemma result_stream_Nil: "result_stream (ArrayOf []) = []"
  by (simp add: result_stream_def createResultStream_Nil)

lemma split_first_sound: "split_first p s = Some (a, b) \<Longrightarrow> s = a @ p @ b"
proof (induction s arbitrary: a)
  case Nil
  then show ?case by (simp split: if_splits)
next
  case (Cons c cs)
  show ?case
  proof (cases "prefix p (c # cs)")
    case True
    with Cons.prems have "a = []" and "b = drop (length p) (c # cs)" by simp_all
    moreover from True obtain zs where "c # cs = p @ zs" by (auto simp: prefix_def)
    ultimately show ?thesis by simp
  next
    case False
    with Cons.prems obtain a' where "split_first p cs = Some (a', b)" and "a = c # a'"
      by auto
    with Cons.IH show ?thesis by simp
  qed
qed

lemma split_first_complete: "split_first p (a @ p @ b) \<noteq> None"
proof (induction a)
  case Nil
  show ?case
  proof (cases "p @ b")
    case Nil
    then show ?thesis by simp
  next
    case (Cons x xs)
    then have "prefix p (x # xs)" by (metis prefixI)
    with Cons show ?thesis by simp
  qed
next
  case (Cons c a)
  then show ?case by (cases "split_first p (a @ p @ b)") auto
qed

lemma split_first_None: "\<not> str_includes s p \<Longrightarrow> split_first p s = None"
  by (cases "split_first p s") (simp_all add: str_includes_def)

lemma not_includes: "split_first p s = None \<Longrightarrow> \<not> str_includes s p"
  by (simp add: str_includes_def)

lemma str_includes_iff: "str_includes s p \<longleftrightarrow> (\<exists>a b. s = a @ p @ b)"
proof
  assume "str_includes s p"
  then obtain a b where "split_first p s = Some (a, b)"
    by (auto simp: str_includes_def)
  then show "\<exists>a b. s = a @ p @ b" using split_first_sound by blast
next
  assume "\<exists>a b. s = a @ p @ b"
  then show "str_includes s p"
    using split_first_complete by (auto simp: str_includes_def)
qed

lemma prefix_shorter: "prefix p (x @ y) \<Longrightarrow> length p \<le> length x \<Longrightarrow> prefix p x"
  by (auto simp: prefix_append)

lemma not_prefix_before:
  assumes "\<not> prefix p (c # a @ butlast p)"
  shows "\<not> prefix p (c # a @ p @ b)"
proof
  assume pre: "prefix p (c # a @ p @ b)"
  from assms have ne: "p \<noteq> []" by auto
  then have "c # a @ p @ b = (c # a @ butlast p) @ (last p # b)"
    by (metis append.assoc append_Cons append_Nil append_butlast_last_id)
  moreover from ne have "length p \<le> length (c # a @ butlast p)" by simp
  ultimately have "prefix p (c # a @ butlast p)"
    using pre prefix_shorter by metis
  with assms show False by simp
qed

lemma split_first_first:
  "\<not> str_includes (a @ butlast p) p \<Longrightarrow> split_first p (a @ p @ b) = Some (a, b)"
proof (induction a)
  case Nil
  then have "p \<noteq> []" by (auto simp: str_includes_def)
  then show ?case by (cases p) simp_all
next
  case (Cons c a)
  from Cons.prems have np: "\<not> prefix p (c # a @ butlast p)"
    and ni: "\<not> str_includes (a @ butlast p) p"
    by (auto simp: str_includes_def split: if_splits)
  from np have "\<not> prefix p (c # a @ p @ b)" by (rule not_prefix_before)
  with Cons.IH [OF ni] show ?case by simp
qed

lemma str_includes_Cons: "str_includes cs p \<Longrightarrow> str_includes (c # cs) p"
  by (auto simp: str_includes_def)

lemma str_includes_drop: "str_includes (drop n s) p \<Longrightarrow> str_includes s p"
proof -
  assume "str_includes (drop n s) p"
  then obtain a b where "drop n s = a @ p @ b" by (auto simp: str_includes_iff)
  then have "s = (take n s @ a) @ p @ b" by (metis append.assoc append_take_drop_id)
  then show ?thesis unfolding str_includes_iff by blast
qed

lemma thinkMatch_no_close: "\<not> str_includes s CLOSE \<Longrightarrow> thinkMatch s = None"
proof (induction s)
  case Nil
  show ?case by simp
next
  case (Cons c cs)
  from Cons.prems have "\<not> str_includes (drop (length OPEN) (c # cs)) CLOSE"
    by (rule contrapos_nn) (rule str_includes_drop)
  then have sf: "split_first CLOSE (drop (length OPEN) (c # cs)) = None"
    by (rule split_first_None)
  from Cons.prems have "\<not> str_includes cs CLOSE"
    by (rule contrapos_nn) (rule str_includes_Cons)
  then have ih: "thinkMatch cs = None" by (rule Cons.IH)
  show ?case
    by (simp only: thinkMatch.simps sf ih if_cancel option.case option.map)
qed

lemma thinkMatch_no_open: "\<not> str_includes s OPEN \<Longrightarrow> thinkMatch s = None"
proof (induction s)
  case Nil
  show ?case by simp
next
  case (Cons c cs)
  from Cons.prems have "\<not> prefix OPEN (c # cs)" and "\<not> str_includes cs OPEN"
    by (auto simp: str_includes_def split: if_splits)
  with Cons.IH show ?case by simp
qed

lemma close_after_open:
  "split_first CLOSE (tl OPEN @ rest) = map_option (\<lambda>(a, b). (tl OPEN @ a, b)) (split_first CLOSE rest)"
  by (simp add: OPEN_def CLOSE_def str_def option.map_comp comp_def case_prod_unfold)

lemma thinkMatch_at_open:
  "thinkMatch (OPEN @ rest) =
     (case split_first CLOSE rest of Some (m, r) \<Rightarrow> Some ([], m, r) | None \<Rightarrow> None)"
proof -
  have eq: "hd OPEN # (tl OPEN @ rest) = OPEN @ rest"
    by (simp add: OPEN_def str_def)
  have "thinkMatch (hd OPEN # (tl OPEN @ rest)) =
     (case (if prefix OPEN (hd OPEN # (tl OPEN @ rest))
            then split_first CLOSE (drop (length OPEN) (hd OPEN # (tl OPEN @ rest))) else None) of
        Some (m, r) \<Rightarrow> Some ([], m, r)
      | None \<Rightarrow> map_option (\<lambda>(p, m, r). (hd OPEN # p, m, r)) (thinkMatch (tl OPEN @ rest)))"
    by (simp only: thinkMatch.simps)
  then have step: "thinkMatch (OPEN @ rest) =
     (case split_first CLOSE rest of
        Some (m, r) \<Rightarrow> Some ([], m, r)
      | None \<Rightarrow> map_option (\<lambda>(p, m, r). (hd OPEN # p, m, r)) (thinkMatch (tl OPEN @ rest)))"
    unfolding eq by simp
  show ?thesis
  proof (cases "split_first CLOSE rest")
    case None
    then have "split_first CLOSE (tl OPEN @ rest) = None"
      by (simp add: close_after_open)
    then have "\<not> str_includes (tl OPEN @ rest) CLOSE"
      by (rule not_includes)
    then have "thinkMatch (tl OPEN @ rest) = None"
      by (rule thinkMatch_no_close)
    with None step show ?thesis by simp
  next
    case (Some mr)
    with step show ?thesis by simp
  qed
qed

lemma thinkMatch_skip:
  "\<not> str_includes (pre @ butlast OPEN) OPEN \<Longrightarrow>
     thinkMatch (pre @ OPEN @ rest) =
       map_option (\<lambda>(p, m, r). (pre @ p, m, r)) (thinkMatch (OPEN @ rest))"
proof (induction pre)
  case Nil
  show ?case by (simp add: option.map_ident case_prod_unfold)
next
  case (Cons c pre)
  from Cons.prems have np: "\<not> prefix OPEN (c # pre @ butlast OPEN)"
    and ni: "\<not> str_includes (pre @ butlast OPEN) OPEN"
    by (auto simp: str_includes_def split: if_splits)
  from np have "\<not> prefix OPEN (c # pre @ OPEN @ rest)" by (rule not_prefix_before)
  with Cons.IH [OF ni] show ?case
    by (simp add: option.map_comp comp_def case_prod_unfold)
qed

lemma thinkMatch_pair:
  assumes "\<not> str_includes (pre @ butlast OPEN) OPEN"
    and "\<not> str_includes (mid @ butlast CLOSE) CLOSE"
  shows "thinkMatch (pre @ OPEN @ mid @ CLOSE @ post) = Some (pre, mid, post)"
  by (simp add: thinkMatch_skip [OF assms(1)] thinkMatch_at_open split_first_first [OF assms(2)])

lemma thinkMatch_unclosed:
  assumes "\<not> str_includes (pre @ butlast OPEN) OPEN" and "\<not> str_includes rest CLOSE"
  shows "thinkMatch (pre @ OPEN @ rest) = None"
  by (simp add: thinkMatch_skip [OF assms(1)] thinkMatch_at_open split_first_None [OF assms(2)])

lemma replace_first_open:
  "\<not> str_includes (pre @ butlast OPEN) OPEN \<Longrightarrow> replace_first (pre @ OPEN @ rest) OPEN [] = pre @ rest"
  by (simp add: replace_first_def split_first_first)

lemma includes_open: "str_includes (pre @ OPEN @ rest) OPEN"
  unfolding str_includes_iff by blast

lemma ltrim_keeps_tag:
  assumes "tag \<noteq> []" and "\<not> isWhiteSpace (hd tag)"
  shows "ltrim (x @ tag @ y) = ltrim x @ tag @ y"
proof -
  from assms obtain t ts where "tag = t # ts" and "\<not> isWhiteSpace t"
    by (cases tag) auto
  then show ?thesis by (simp add: ltrim_def dropWhile_append)
qed

lemma rtrim_keeps_tag:
  assumes "tag \<noteq> []" and "\<not> isWhiteSpace (last tag)"
  shows "rtrim (x @ tag @ y) = x @ tag @ rtrim y"
proof -
  from assms obtain t ts where r: "rev tag = t # ts" and "\<not> isWhiteSpace t"
    by (cases "rev tag") (auto simp: last_rev [symmetric] simp del: last_rev)
  then have "dropWhile isWhiteSpace (rev y @ rev tag @ rev x)
               = dropWhile isWhiteSpace (rev y) @ rev tag @ rev x"
    by (simp add: dropWhile_append)
  then show ?thesis by (simp add: rtrim_def)
qed

lemma trim_keeps_tag:
  assumes "tag = OPEN \<or> tag = CLOSE"
  shows "trim (x @ tag @ y) = ltrim x @ tag @ rtrim y"
proof -
  from assms have "tag \<noteq> []" and "\<not> isWhiteSpace (hd tag)" and "\<not> isWhiteSpace (last tag)"
    by (auto simp: OPEN_def CLOSE_def str_def isWhiteSpace_def)
  then show ?thesis
    by (metis append.assoc ltrim_keeps_tag rtrim_keeps_tag trim_def)
qed

section \<open>Facts about the search hook and the reformulation\<close>

lemma insert_cmp_insort:
  "insert_cmp (\<lambda>a b. f b - f a) x ys = insort_key (\<lambda>r. - f r) x ys"
  by (induction ys) simp_all

lemma array_sort_sort_key:
  "array_sort (\<lambda>a b. f b - f a) xs = sort_key (\<lambda>r. - f r) xs"
  by (induction xs) (simp_all add: array_sort_def sort_key_def insert_cmp_insort)

lemma normalized_input_value:
  "normalize_query (str ''  <b>foo bar</b>'' @ [NL, QUOTE] @ str ''baz'' @ [QUOTE, SP, SP])
     = str ''foo bar '' @ [QUOTE] @ str ''baz''"
  by (simp add: normalize_query_def str_def trim_defs strip_edges_def
      newlines_to_spaces_def isQuoteOrSpace_def char_defs)

section \<open>The claims\<close>

text \<open>
  C1 (as amended). The parsed view of a raw assistant text is computed in two places, by
  \<open>parseMessage\<close> for rendering and by the streaming effect for the turn in progress.
  When a \<open></think>\<close> follows the first \<open><think>\<close>, both give as thinking text the
  trimmed text between the first \<open><think>\<close> and the first \<open></think>\<close> after it,
  and as answer the trimmed rest of the text. When the first \<open><think>\<close> has no
  \<open></think>\<close> after it, \<open>parseMessage\<close> has no thinking text and answers with the
  whole trimmed text, tag included, while the effect takes as thinking text the trimmed
  text with that tag removed (what follows the tag, when the tag comes first) and an
  empty answer. With no \<open><think>\<close> at all, \<open>parseMessage\<close> has no thinking text
  and answers with the trimmed text; the effect writes the trimmed text to the thinking
  buffer while the phase is Thinking and to the answer buffer otherwise.
\<close>

theorem parse_cases:
  "(\<not> str_includes (pre @ butlast OPEN) OPEN \<and> \<not> str_includes (mid @ butlast CLOSE) CLOSE \<longrightarrow>
      parseMessage (pre @ OPEN @ mid @ CLOSE @ post)
        = \<lparr>parsed_thinking = Some (trim mid), parsed_content = trim (pre @ post)\<rparr>
      \<and> streaming_update (pre @ OPEN @ mid @ CLOSE @ post) st
        = st\<lparr>thinking := trim mid, content := trim (pre @ post), isThinking := False\<rparr>)
   \<and> (\<not> str_includes (pre @ butlast OPEN) OPEN \<and> \<not> str_includes rest CLOSE \<longrightarrow>
      parseMessage (pre @ OPEN @ rest)
        = \<lparr>parsed_thinking = None, parsed_content = trim (pre @ OPEN @ rest)\<rparr>
      \<and> streaming_update (pre @ OPEN @ rest) st
        = st\<lparr>thinking := trim (pre @ rest), content := [], isThinking := True\<rparr>)
   \<and> (\<not> str_includes raw OPEN \<longrightarrow>
      parseMessage raw = \<lparr>parsed_thinking = None, parsed_content = trim raw\<rparr>
      \<and> streaming_update raw st
        = (if isThinking st then st\<lparr>thinking := trim raw\<rparr> else st\<lparr>content := trim raw\<rparr>))"
proof (intro conjI impI)
  assume h: "\<not> str_includes (pre @ butlast OPEN) OPEN \<and> \<not> str_includes (mid @ butlast CLOSE) CLOSE"
  then have m: "thinkMatch (pre @ OPEN @ mid @ CLOSE @ post) = Some (pre, mid, post)"
    by (simp add: thinkMatch_pair)
  show "parseMessage (pre @ OPEN @ mid @ CLOSE @ post)
        = \<lparr>parsed_thinking = Some (trim mid), parsed_content = trim (pre @ post)\<rparr>"
    by (simp add: parseMessage_def m)
  show "streaming_update (pre @ OPEN @ mid @ CLOSE @ post) st
        = st\<lparr>thinking := trim mid, content := trim (pre @ post), isThinking := False\<rparr>"
    by (simp add: streaming_update_def m)
next
  assume h: "\<not> str_includes (pre @ butlast OPEN) OPEN \<and> \<not> str_includes rest CLOSE"
  then have m: "thinkMatch (pre @ OPEN @ rest) = None"
    by (simp add: thinkMatch_unclosed)
  show "parseMessage (pre @ OPEN @ rest)
        = \<lparr>parsed_thinking = None, parsed_content = trim (pre @ OPEN @ rest)\<rparr>"
    by (simp add: parseMessage_def m)
  from h show "streaming_update (pre @ OPEN @ rest) st
        = st\<lparr>thinking := trim (pre @ rest), content := [], isThinking := True\<rparr>"
    by (simp add: streaming_update_def m includes_open replace_first_open)
next
  assume h: "\<not> str_includes raw OPEN"
  then have m: "thinkMatch raw = None" by (rule thinkMatch_no_open)
  show "parseMessage raw = \<lparr>parsed_thinking = None, parsed_content = trim raw\<rparr>"
    by (simp add: parseMessage_def m)
  from h show "streaming_update raw st
        = (if isThinking st then st\<lparr>thinking := trim raw\<rparr> else st\<lparr>content := trim raw\<rparr>)"
    by (simp add: streaming_update_def m)
qed

text \<open>
  The three cases of C1 at \<open><think>A</think>B\<close>, \<open><think>partial\<close> and \<open>plain\<close>.
\<close>

theorem parse_cases_witness:
  "parseMessage (str ''<think>A</think>B'')
     = \<lparr>parsed_thinking = Some (str ''A''), parsed_content = str ''B''\<rparr>
   \<and> streaming_update (str ''<think>A</think>B'') fresh_state
     = fresh_state\<lparr>thinking := str ''A'', content := str ''B'', isThinking := False\<rparr>
   \<and> parseMessage (str ''<think>partial'')
     = \<lparr>parsed_thinking = None, parsed_content = str ''<think>partial''\<rparr>
   \<and> streaming_update (str ''<think>partial'') fresh_state
     = fresh_state\<lparr>thinking := str ''partial'', content := [], isThinking := True\<rparr>
   \<and> parseMessage (str ''plain'')
     = \<lparr>parsed_thinking = None, parsed_content = str ''plain''\<rparr>
   \<and> streaming_update (str ''plain'') fresh_state = fresh_state\<lparr>thinking := str ''plain''\<rparr>"
  using parse_cases [where pre = "[]" and mid = "str ''A''" and post = "str ''B''"
      and rest = "str ''partial''" and raw = "str ''plain''" and st = fresh_state]
  by (simp add: str_def OPEN_def CLOSE_def str_includes_def trim_defs fresh_state_def)

text \<open>
  C1 as stated fails. For \<open>x<think>y\<close>, an opening tag with no closing tag, the claim
  gives the thinking text \<open>y\<close> and an empty answer: \<open>parseMessage\<close> has no thinking
  text and answers \<open>x<think>y\<close>, and the effect's thinking text is \<open>xy\<close>. For
  \<open><think>partial\<close>, \<open>parseMessage\<close> does not give \<open>partial\<close> and an empty
  answer. For \<open>plain\<close> in the Thinking phase, the effect makes it the thinking text and
  not the answer.
\<close>

theorem parse_claim_counterexample:
  "parsed_thinking (parseMessage (str ''x<think>y'')) = None
   \<and> parsed_content (parseMessage (str ''x<think>y'')) = str ''x<think>y''
   \<and> thinking (streaming_update (str ''x<think>y'') fresh_state) = str ''xy''
   \<and> parsed_thinking (parseMessage (str ''x<think>y'')) \<noteq> Some (str ''y'')
   \<and> thinking (streaming_update (str ''x<think>y'') fresh_state) \<noteq> str ''y''
   \<and> parseMessage (str ''<think>partial'')
       \<noteq> \<lparr>parsed_thinking = Some (str ''partial''), parsed_content = []\<rparr>
   \<and> thinking (streaming_update (str ''plain'') fresh_state) = str ''plain''
   \<and> content (streaming_update (str ''plain'') fresh_state) \<noteq> str ''plain''"
  by (simp add: parseMessage_def streaming_update_def replace_first_def str_def OPEN_def CLOSE_def
      str_includes_def trim_defs fresh_state_def)

text \<open>
  C2. Scenario 3: from the Thinking phase with empty buffers, the effect runs on the
  accumulated texts \<open><th\<close>, \<open><think>Eval\<close> and
  \<open><think>Evaluating sources</think>## Overview\<close> followed by a newline and any
  further text \<open>rest\<close> (the dots of the scenario), then on that text extended by any
  \<open>later\<close> chunks. The phase is Thinking after the first two and Answering from the
  third on, the thinking text is \<open>Evaluating sources\<close> from the third on, and the
  answer is the (trimmed) text after the closing tag, which grows with the buffer.
\<close>

theorem scenario3_phases:
  "let s0 = \<lparr>thinking = [], content = [], isThinking = True, sources = srcs\<rparr>;
       s1 = streaming_effect (ms @ [Message Assistant (str ''<th'')]) s0;
       s2 = streaming_effect (ms @ [Message Assistant (str ''<think>Eval'')]) s1;
       s3 = streaming_effect
              (ms @ [Message Assistant
                       (str ''<think>Evaluating sources</think>## Overview'' @ NL # rest)]) s2;
       s4 = streaming_effect
              (ms @ [Message Assistant
                       (str ''<think>Evaluating sources</think>## Overview'' @ NL # rest @ later)]) s3
   in isThinking s1 \<and> isThinking s2 \<and> thinking s2 = str ''Eval'' \<and> content s2 = []
      \<and> \<not> isThinking s3 \<and> thinking s3 = str ''Evaluating sources''
      \<and> content s3 = trim (str ''## Overview'' @ NL # rest)
      \<and> \<not> isThinking s4 \<and> thinking s4 = str ''Evaluating sources''
      \<and> content s4 = trim (str ''## Overview'' @ NL # rest @ later)"
proof -
  have m1: "thinkMatch (str ''<th'') = None"
    by (simp add: str_def OPEN_def CLOSE_def)
  have i1: "\<not> str_includes (str ''<th'') OPEN"
    by (simp add: str_includes_def str_def OPEN_def)
  have m2: "thinkMatch (str ''<think>Eval'') = None"
    by (simp add: str_def OPEN_def CLOSE_def)
  have i2: "str_includes (str ''<think>Eval'') OPEN"
    by (simp add: str_includes_def str_def OPEN_def)
  have r2: "replace_first (str ''<think>Eval'') OPEN [] = str ''Eval''"
    by (simp add: replace_first_def str_def OPEN_def)
  have t2: "trim (str ''Eval'') = str ''Eval''"
    by (simp add: str_def trim_defs)
  have m3: "thinkMatch (str ''<think>Evaluating sources</think>## Overview'' @ NL # t)
              = Some ([], str ''Evaluating sources'', str ''## Overview'' @ NL # t)" for t
    by (simp add: str_def OPEN_def CLOSE_def)
  have t3: "trim (str ''Evaluating sources'') = str ''Evaluating sources''"
    by (simp add: str_def trim_defs)
  show ?thesis
    by (simp add: Let_def streaming_effect_def streaming_update_def m1 i1 m2 i2 r2 t2 m3 t3)
qed

text \<open>The third step of Scenario 3 with the literal dots as the rest of the buffer.\<close>

lemma scenario3_literal:
  "streaming_update (str ''<think>Evaluating sources</think>## Overview'' @ NL # str ''...'') st
     = st\<lparr>thinking := str ''Evaluating sources'',
           content := str ''## Overview'' @ NL # str ''...'', isThinking := False\<rparr>"
  by (simp add: streaming_update_def str_def OPEN_def CLOSE_def trim_defs char_defs)

text \<open>
  C3 (as amended). The input is two spaces, \<open><b>foo bar</b>\<close>, a newline, \<open>"baz"\<close>
  and two spaces. The normalization returns \<open>foo bar "baz\<close>: the markup and the
  newline are gone and the quote at the end is stripped, but the quote before \<open>baz\<close>,
  which is not at an end of the text, stays.
\<close>

theorem normalize_example:
  "normalize_query (str ''  <b>foo bar</b>'' @ [NL, QUOTE] @ str ''baz'' @ [QUOTE, SP, SP])
     = str ''foo bar '' @ [QUOTE] @ str ''baz''
   \<and> LT \<notin> set (normalize_query
                  (str ''  <b>foo bar</b>'' @ [NL, QUOTE] @ str ''baz'' @ [QUOTE, SP, SP]))
   \<and> GT \<notin> set (normalize_query
                  (str ''  <b>foo bar</b>'' @ [NL, QUOTE] @ str ''baz'' @ [QUOTE, SP, SP]))
   \<and> NL \<notin> set (normalize_query
                  (str ''  <b>foo bar</b>'' @ [NL, QUOTE] @ str ''baz'' @ [QUOTE, SP, SP]))"
  unfolding normalized_input_value by (simp add: str_def char_defs)

text \<open>
  C3 as stated fails: the result is not \<open>foo bar baz\<close>, and a quote character is left
  in it.
\<close>

theorem normalize_example_counterexample:
  "normalize_query (str ''  <b>foo bar</b>'' @ [NL, QUOTE] @ str ''baz'' @ [QUOTE, SP, SP])
     \<noteq> str ''foo bar baz''
   \<and> QUOTE \<in> set (normalize_query
                    (str ''  <b>foo bar</b>'' @ [NL, QUOTE] @ str ''baz'' @ [QUOTE, SP, SP]))"
  unfolding normalized_input_value by (simp add: str_def char_defs)

text \<open>
  C4 (the code at the failing input). On a follow-up whose reformulation output is two
  double quotes, the normalized result is empty, and the search query is that empty
  string, not the question: the guard of the fallback tests the raw output before it is
  normalized.
\<close>

theorem searchQuery_empty_after_normalizing:
  "normalize_query [QUOTE, QUOTE] = []
   \<and> searchQuery (str ''what about Paris?'') 3 (Ok [QUOTE, QUOTE]) = []
   \<and> searchQuery (str ''what about Paris?'') 3 (Ok [QUOTE, QUOTE]) \<noteq> str ''what about Paris?''"
  by (simp add: searchQuery_def normalize_query_def str_def trim_defs strip_edges_def
      newlines_to_spaces_def isQuoteOrSpace_def char_defs)

text \<open>
  C5. For every result list, the produced sequence is ordered by score, highest first,
  it has the same results as the input, and for every score the results with that score
  are in the order they had in the input.
\<close>

theorem createResultStream_sorted_stable:
  "sorted_wrt (\<lambda>a b. score a \<ge> score b) (createResultStream rs)
   \<and> mset (createResultStream rs) = mset rs
   \<and> (\<forall>k. filter (\<lambda>r. score r = k) (createResultStream rs) = filter (\<lambda>r. score r = k) rs)"
proof -
  have eq: "createResultStream rs = sort_key (\<lambda>r. - score r) rs"
    by (simp add: createResultStream_def array_sort_sort_key)
  have "sorted (map (\<lambda>r. - score r) (sort_key (\<lambda>r. - score r) rs))"
    by (rule sorted_sort_key)
  then have s: "sorted_wrt (\<lambda>a b. score a \<ge> score b) (createResultStream rs)"
    by (simp add: eq sorted_map)
  have st: "filter (\<lambda>r. score r = k) (createResultStream rs) = filter (\<lambda>r. score r = k) rs" for k
    using sort_key_stable [of "\<lambda>r. - score r" "- k" rs] by (simp add: eq)
  from s st show ?thesis by (simp add: eq)
qed

text \<open>
  C5 at a list with a tie: the results scored 0.5, 0.9, 0.5 come out as 0.9, then the two
  0.5 in their input order.
\<close>

theorem createResultStream_sorted_stable_witness:
  "createResultStream [result_of ''a'' 0.5, result_of ''b'' 0.9, result_of ''c'' 0.5]
     = [result_of ''b'' 0.9, result_of ''a'' 0.5, result_of ''c'' 0.5]
   \<and> filter (\<lambda>r. score r = 0.5)
        (createResultStream [result_of ''a'' 0.5, result_of ''b'' 0.9, result_of ''c'' 0.5])
     = [result_of ''a'' 0.5, result_of ''c'' 0.5]"
  using createResultStream_sorted_stable
    [of "[result_of ''a'' 0.5, result_of ''b'' 0.9, result_of ''c'' 0.5]"]
  by (simp add: createResultStream_def array_sort_def result_of_def)

text \<open>
  C6 (as amended). For every search failure that \<open>performSearch\<close> detects, that is a
  rejected request, a non-success response, or a success response whose body is not
  JSON or is \<open>null\<close>, the error is thrown inside the \<open>try\<close> block and caught
  there, and \<open>performSearch\<close> returns a sequence that yields nothing, empties the
  published results and sets an error message. The message
  is the \<open>details\<close> field of a non-success response when that field is present and not
  the empty string; it is \<open>Search request failed\<close> when the field is missing or empty
  or the body is a JSON value without fields; it is the message of the error thrown
  when the request is rejected, the body is not JSON or the body is \<open>null\<close>; it is
  \<open>Failed to perform search\<close> when what is thrown is not an \<open>Error\<close>. A success
  response whose body is a JSON number, string, boolean or array, or an object with no
  \<open>results\<close>, is not taken as a failure: no error is set and the sequence yields
  nothing.
\<close>

theorem performSearch_failures:
  "(search_failure outcome \<longrightarrow>
      isl (try_search outcome h')
      \<and> snd (performSearch outcome h) = []
      \<and> searchResults (fst (performSearch outcome h)) = ArrayOf []
      \<and> searchError (fst (performSearch outcome h)) \<noteq> None
      \<and> \<not> isSearching (fst (performSearch outcome h)))
   \<and> (d \<noteq> [] \<longrightarrow> performSearch (Response False (JsonObject (Some d) r)) h
       = (h\<lparr>isSearching := False, searchError := Some d, searchResults := ArrayOf []\<rparr>, []))
   \<and> performSearch (Response False (JsonObject (Some []) r)) h
       = (h\<lparr>isSearching := False, searchError := Some request_failed,
            searchResults := ArrayOf []\<rparr>, [])
   \<and> performSearch (Response False (JsonObject None r)) h
       = (h\<lparr>isSearching := False, searchError := Some request_failed,
            searchResults := ArrayOf []\<rparr>, [])
   \<and> performSearch (Response False JsonOther) h
       = (h\<lparr>isSearching := False, searchError := Some request_failed,
            searchResults := ArrayOf []\<rparr>, [])
   \<and> performSearch (Response ok (NotJson m)) h
       = (h\<lparr>isSearching := False, searchError := Some m, searchResults := ArrayOf []\<rparr>, [])
   \<and> performSearch (Response ok (JsonNull m)) h
       = (h\<lparr>isSearching := False, searchError := Some m, searchResults := ArrayOf []\<rparr>, [])
   \<and> performSearch (Rejected (Error m)) h
       = (h\<lparr>isSearching := False, searchError := Some m, searchResults := ArrayOf []\<rparr>, [])
   \<and> performSearch (Rejected NonError) h
       = (h\<lparr>isSearching := False, searchError := Some failed_to_perform,
            searchResults := ArrayOf []\<rparr>, [])
   \<and> performSearch (Response True JsonOther) h
       = (h\<lparr>isSearching := False, searchError := None, searchResults := ArrayOf []\<rparr>, [])
   \<and> performSearch (Response True (JsonObject d' None)) h
       = (h\<lparr>isSearching := False, searchError := None, searchResults := ArrayOf []\<rparr>, [])"
proof -
  have "isl (try_search outcome h')
      \<and> snd (performSearch outcome h) = []
      \<and> searchResults (fst (performSearch outcome h)) = ArrayOf []
      \<and> searchError (fst (performSearch outcome h)) \<noteq> None
      \<and> \<not> isSearching (fst (performSearch outcome h))" if f: "search_failure outcome"
  proof (cases outcome)
    case (Rejected t)
    then show ?thesis
      by (simp add: performSearch_def try_search_def result_stream_Nil)
  next
    case (Response ok' b)
    show ?thesis
    proof (cases b)
      case (JsonObject d'' r')
      with f Response have "\<not> ok'" by simp
      with Response JsonObject show ?thesis
        by (simp add: performSearch_def try_search_def result_stream_Nil)
    next
      case JsonOther
      with f Response have "\<not> ok'" by simp
      with Response JsonOther show ?thesis
        by (simp add: performSearch_def try_search_def result_stream_Nil)
    qed (cases ok'; simp add: Response performSearch_def try_search_def result_stream_Nil)+
  qed
  then show ?thesis
    by (cases ok; simp add: performSearch_def try_search_def result_stream_Nil)
qed

text \<open>
  C6 at Scenario 4: a failure response with the body
  \<open>{error: "x", details: "rate limited"}\<close> gives an empty sequence and the error text
  \<open>rate limited\<close>.
\<close>

theorem performSearch_failures_witness:
  "search_failure (Response False (JsonObject (Some (str ''rate limited'')) None))
   \<and> isl (try_search (Response False (JsonObject (Some (str ''rate limited'')) None)) idle_hook)
   \<and> snd (performSearch (Response False (JsonObject (Some (str ''rate limited'')) None)) idle_hook)
       = []
   \<and> str ''rate limited'' \<noteq> []
   \<and> performSearch (Response False (JsonObject (Some (str ''rate limited'')) None)) idle_hook
     = (idle_hook\<lparr>isSearching := False, searchError := Some (str ''rate limited''),
                  searchResults := ArrayOf []\<rparr>, [])"
  using performSearch_failures
    [where outcome = "Response False (JsonObject (Some (str ''rate limited'')) None)"
       and h = idle_hook and h' = idle_hook and d = "str ''rate limited''" and r = None]
  by (simp add: str_def)

text \<open>
  C6 as stated fails, in two ways. A failure response whose \<open>details\<close> field is present
  and is the empty string does not get that field as its error message, but
  \<open>Search request failed\<close>. And a success response with a body of the wrong shape that
  has no \<open>results\<close> (here the JSON number 5) gets no error message at all.
\<close>

theorem empty_details_counterexample:
  "details (JsonObject (Some []) None) = Some []
   \<and> searchError (fst (performSearch (Response False (JsonObject (Some []) None)) idle_hook))
       = Some (str ''Search request failed'')
   \<and> searchError (fst (performSearch (Response False (JsonObject (Some []) None)) idle_hook))
       \<noteq> details (JsonObject (Some []) None)
   \<and> searchError (fst (performSearch (Response True JsonOther) idle_hook)) = None"
  by (simp add: performSearch_def try_search_def result_stream_Nil request_failed_def str_def)

text \<open>
  Outside C6 as amended: a success response whose \<open>results\<close> is a truthy value that
  is not an array. Nothing throws inside the \<open>try\<close>, so \<open>performSearch\<close> sets no
  error and publishes the value, and the sequence it returns throws when it is first
  advanced. In \<open>handleSubmit\<close> the loop then throws, and its \<open>catch\<close> replaces the
  answer by the apology; the sources stay as they were.
\<close>

lemma results_not_an_array:
  "performSearch (Response True (JsonObject d (Some (NonArray m)))) h
     = (h\<lparr>isSearching := False, searchError := None, searchResults := NonArray m\<rparr>,
        [Throw (Error m)])
   \<and> snd (search_step (Response True (JsonObject d (Some (NonArray m)))) (h, st))
     = submit_failed st"
  by (simp add: search_step_def performSearch_def try_search_def result_stream_def)

text \<open>
  C7. For every search failure, the search step of \<open>handleSubmit\<close> leaves the streaming
  state, and so its \<open>sources\<close>, as it was before the search. (The hook's own
  \<open>searchResults\<close> is a different list, and it is emptied.)
\<close>

theorem search_failure_keeps_sources:
  "search_failure outcome \<Longrightarrow>
     snd (search_step outcome (h, st)) = st
     \<and> sources (snd (search_step outcome (h, st))) = sources st"
proof -
  assume f: "search_failure outcome"
  have "snd (search_step outcome (h, st)) = st"
  proof (cases outcome)
    case (Rejected t)
    then show ?thesis
      by (simp add: search_step_def performSearch_def try_search_def result_stream_Nil)
  next
    case (Response ok b)
    show ?thesis
    proof (cases b)
      case (JsonObject d r)
      with f Response have "\<not> ok" by simp
      with Response JsonObject show ?thesis
        by (simp add: search_step_def performSearch_def try_search_def result_stream_Nil)
    next
      case JsonOther
      with f Response have "\<not> ok" by simp
      with Response JsonOther show ?thesis
        by (simp add: search_step_def performSearch_def try_search_def result_stream_Nil)
    qed (cases ok; simp add: Response search_step_def performSearch_def try_search_def
        result_stream_Nil)+
  qed
  then show ?thesis by simp
qed

text \<open>
  C7 at a rejected request, with one source accumulated from the turn before.
\<close>

theorem search_failure_keeps_sources_witness:
  "search_failure (Rejected (Error (str ''Failed to fetch'')))
   \<and> sources (snd (search_step (Rejected (Error (str ''Failed to fetch'')))
                     (idle_hook, fresh_state\<lparr>sources := [result_of ''a'' 0.9]\<rparr>)))
       = [result_of ''a'' 0.9]"
  using search_failure_keeps_sources
    [of "Rejected (Error (str ''Failed to fetch''))" idle_hook
        "fresh_state\<lparr>sources := [result_of ''a'' 0.9]\<rparr>"]
  by simp

text \<open>
  C8. Submitting a turn (an input that is not blank) empties the thinking buffer and the
  answer buffer, sets the phase to Thinking and leaves the sources as they were.
\<close>

theorem turn_submitted_resets:
  "trim input \<noteq> [] \<Longrightarrow>
     thinking (handleSubmit_start input st) = []
     \<and> content (handleSubmit_start input st) = []
     \<and> isThinking (handleSubmit_start input st)
     \<and> sources (handleSubmit_start input st) = sources st"
  by (simp add: handleSubmit_start_def reset_streaming_def)

text \<open>
  C8 at the input \<open>next?\<close>, from a state in the Answering phase with text in both
  buffers and one source.
\<close>

theorem turn_submitted_resets_witness:
  "trim (str ''next?'') \<noteq> []
   \<and> handleSubmit_start (str ''next?'')
        \<lparr>thinking = str ''t'', content = str ''c'', isThinking = False,
         sources = [result_of ''a'' 0.9]\<rparr>
     = \<lparr>thinking = [], content = [], isThinking = True, sources = [result_of ''a'' 0.9]\<rparr>"
proof -
  have ne: "trim (str ''next?'') \<noteq> []"
    by (simp add: str_def trim_defs)
  from turn_submitted_resets [OF ne, of "\<lparr>thinking = str ''t'', content = str ''c'',
      isThinking = False, sources = [result_of ''a'' 0.9]\<rparr>"]
  show ?thesis using ne by (simp add: handleSubmit_start_def reset_streaming_def)
qed

text \<open>
  C9 (as amended). Only the first match counts: the first \<open><think>\<close> and the first
  \<open></think>\<close> after it. The thinking text is the trimmed text between them, the
  answer is the trimmed text around them, and every occurrence of either tag after that
  closing tag is still in the answer, with the text before and after it (trimmed at the
  two ends of the answer only).
\<close>

theorem first_pair_only:
  assumes "\<not> str_includes (pre @ butlast OPEN) OPEN"
    and "\<not> str_includes (mid @ butlast CLOSE) CLOSE"
  shows "parsed_thinking (parseMessage (pre @ OPEN @ mid @ CLOSE @ post)) = Some (trim mid)
    \<and> parsed_content (parseMessage (pre @ OPEN @ mid @ CLOSE @ post)) = trim (pre @ post)
    \<and> (\<forall>tag a b. (tag = OPEN \<or> tag = CLOSE) \<and> post = a @ tag @ b \<longrightarrow>
          parsed_content (parseMessage (pre @ OPEN @ mid @ CLOSE @ post))
            = ltrim (pre @ a) @ tag @ rtrim b)"
proof -
  have m: "thinkMatch (pre @ OPEN @ mid @ CLOSE @ post) = Some (pre, mid, post)"
    using assms by (rule thinkMatch_pair)
  have c: "parsed_content (parseMessage (pre @ OPEN @ mid @ CLOSE @ post)) = trim (pre @ post)"
    by (simp add: parseMessage_def m)
  have t: "parsed_thinking (parseMessage (pre @ OPEN @ mid @ CLOSE @ post)) = Some (trim mid)"
    by (simp add: parseMessage_def m)
  have "trim (pre @ a @ tag @ b) = ltrim (pre @ a) @ tag @ rtrim b"
    if "tag = OPEN \<or> tag = CLOSE" for tag a b
    using trim_keeps_tag [OF that, of "pre @ a" b] by simp
  with t c show ?thesis by auto
qed

text \<open>
  C9 at \<open><think> a </think>b<think>c</think>d\<close>: the thinking text is \<open>a\<close> and the
  second pair of tags is in the answer as text.
\<close>

theorem first_pair_only_witness:
  "parsed_thinking (parseMessage (str ''<think> a </think>b<think>c</think>d'')) = Some (str ''a'')
   \<and> parsed_content (parseMessage (str ''<think> a </think>b<think>c</think>d''))
       = str ''b<think>c</think>d''
   \<and> parsed_content (parseMessage (str ''<think> a </think>b<think>c</think>d''))
       = ltrim (str ''b'') @ OPEN @ rtrim (str ''c</think>d'')
   \<and> parsed_content (parseMessage (str ''<think> a </think>b<think>c</think>d''))
       = ltrim (str ''b<think>c'') @ CLOSE @ rtrim (str ''d'')"
proof -
  have h1: "\<not> str_includes ([] @ butlast OPEN) OPEN"
    by (simp add: str_includes_def OPEN_def str_def)
  have h2: "\<not> str_includes (str '' a '' @ butlast CLOSE) CLOSE"
    by (simp add: str_includes_def CLOSE_def str_def)
  have raw: "str ''<think> a </think>b<think>c</think>d''
      = [] @ OPEN @ str '' a '' @ CLOSE @ str ''b<think>c</think>d''"
    by (simp add: OPEN_def CLOSE_def str_def)
  have p1: "str ''b<think>c</think>d'' = str ''b'' @ OPEN @ str ''c</think>d''"
    by (simp add: OPEN_def str_def)
  have p2: "str ''b<think>c</think>d'' = str ''b<think>c'' @ CLOSE @ str ''d''"
    by (simp add: CLOSE_def str_def)
  have t1: "trim (str '' a '') = str ''a''"
    by (simp add: str_def trim_defs)
  have t2: "trim (str ''b<think>c</think>d'') = str ''b<think>c</think>d''"
    by (simp add: str_def trim_defs)
  note inst = first_pair_only [OF h1 h2, of "str ''b<think>c</think>d''", folded raw]
  from inst have "parsed_thinking (parseMessage (str ''<think> a </think>b<think>c</think>d''))
       = Some (str ''a'')"
    by (simp add: t1)
  moreover from inst have "parsed_content (parseMessage (str ''<think> a </think>b<think>c</think>d''))
       = str ''b<think>c</think>d''"
    by (simp add: t2)
  moreover from inst p1 have "parsed_content (parseMessage (str ''<think> a </think>b<think>c</think>d''))
       = ltrim ([] @ str ''b'') @ OPEN @ rtrim (str ''c</think>d'')"
    by blast
  moreover from inst p2 have "parsed_content (parseMessage (str ''<think> a </think>b<think>c</think>d''))
       = ltrim ([] @ str ''b<think>c'') @ CLOSE @ rtrim (str ''d'')"
    by blast
  ultimately show ?thesis by simp
qed

text \<open>
  C9 as stated fails. The text \<open><think>a<think>b</think>c</think>d\<close> has two pairs of
  tags. Its second \<open><think>\<close> comes before the first \<open></think>\<close>, so it is part of
  the thinking text \<open>a<think>b\<close>, and the answer \<open>c</think>d\<close> has no \<open><think>\<close>
  in it.
\<close>

theorem nested_open_counterexample:
  "parsed_thinking (parseMessage (str ''<think>a<think>b</think>c</think>d''))
     = Some (str ''a<think>b'')
   \<and> parsed_content (parseMessage (str ''<think>a<think>b</think>c</think>d''))
     = str ''c</think>d''
   \<and> \<not> str_includes (parsed_content (parseMessage (str ''<think>a<think>b</think>c</think>d''))) OPEN"
  by (simp add: parseMessage_def str_def OPEN_def CLOSE_def str_includes_def trim_defs)

text \<open>
  C10. For a success response whose body is an object with no \<open>results\<close> field (or a
  null one), the \<open>try\<close> block does not throw, and \<open>performSearch\<close> publishes an empty
  result list, sets no error and returns a sequence that yields nothing.
\<close>

theorem missing_results_yield_nothing:
  "\<not> isl (try_search (Response True (JsonObject d None)) h)
   \<and> performSearch (Response True (JsonObject d None)) h0
       = (h0\<lparr>isSearching := False, searchError := None, searchResults := ArrayOf []\<rparr>, [])"
  by (simp add: performSearch_def try_search_def result_stream_Nil)

end
